theory Spec2Isabelle
  imports Complex_Main "HOL-Library.Multiset"
begin


section \<open>Data model (types.ts)\<close>

text \<open>
  The warranty service (class \<open>LenovoWarrantyService\<close>) is embedded as pure functions with
  explicit state passing. The state of the service that the lookups read and write is
  its cache; everything outside the process (the HTTP endpoint, the browser session, the
  clock, the \<open>Date\<close> parser) is an environment record of oracles.
\<close>

datatype warrantyStatus = Active | Expired | Expiring_Soon | Error | Not_Found

text \<open>
  A JavaScript number as far as the service uses one: \<open>daysRemaining\<close> is the ceiling of
  a quotient of millisecond time stamps, hence an integer, or \<open>NaN\<close> when the end date
  does not parse (\<open>new Date(s).getTime()\<close> of an invalid date). Every comparison with
  \<open>NaN\<close> is false. Rounding of doubles is not modelled: time stamps are integers.
\<close>

datatype jsnum = Num int | NaN

fun js_lt :: "jsnum \<Rightarrow> int \<Rightarrow> bool" where
  "js_lt (Num a) b = (a < b)"
| "js_lt NaN b = False"

fun js_le :: "jsnum \<Rightarrow> int \<Rightarrow> bool" where
  "js_le (Num a) b = (a \<le> b)"
| "js_le NaN b = False"



record WarrantyInfo =
  serialNumber :: string
  productName :: "string option"
  productType :: "string option"
  warrantyStartDate :: "string option"
  warrantyEndDate :: "string option"
  daysRemaining :: "jsnum option"
  warrantyStatus :: warrantyStatus
  warrantyType :: "string option"
  errorMessage :: "string option"

text \<open>The payload of the structured endpoint, interface \<open>LenovoApiResponse\<close>.\<close>

record ApiWarranty =
  w_startDate :: string
  w_endDate :: string
  w_type :: string
  w_status :: string

record ApiData =
  d_product :: "string option"
  d_warranty :: "ApiWarranty option"

record LenovoApiResponse =
  r_status :: string
  r_data :: "ApiData option"
  r_error :: "string option"

text \<open>
  The object that \<open>page.evaluate\<close> returns in \<open>scrapeWarrantyInfo\<close>: seven strings, each
  \<open>''''\<close> when its selector matched nothing (\<open>extractText\<close>) or held no date-shaped token
  (\<open>extractDate\<close>).
\<close>

record WarrantyData =
  wd_productName :: string
  wd_productType :: string
  wd_warrantyStartDate :: string
  wd_warrantyEndDate :: string
  wd_warrantyType :: string
  wd_warrantyStatus :: string
  wd_errorMessage :: string

text \<open>
  A thrown value: an \<open>Error\<close> instance with its message, or any other value
  (\<open>error instanceof Error\<close> is false for it).
\<close>

datatype js_exn = ErrorObj string | Thrown

text \<open>
  What the browser session does for one serial (lines 401 to 473 and the closing of the
  page): some awaited step throws (launch, navigation or selector timeout, closing the
  page), the browser is missing after \<open>initBrowser\<close>, the input field or the submit button
  is not found, or the fields are extracted.
\<close>

datatype page_outcome =
    StepThrows js_exn
  | NoBrowser
  | NoSerialInput
  | NoSubmitButton
  | Extracted WarrantyData

text \<open>
  The environment of a lookup. \<open>api_post s\<close> is what \<open>axios.post\<close> does for the serial
  \<open>s\<close>: it throws (network failure, timeout, a non-2xx HTTP status) or yields the
  response body. \<open>date_ms\<close> is \<open>new Date(str).getTime()\<close>, \<open>None\<close> for an invalid date.
  \<open>get_ms\<close>, \<open>today_ms\<close> and \<open>set_ms\<close> are the clock readings (milliseconds) when the
  cache is read, when \<open>new Date()\<close> is taken and when the cache is written.
\<close>

record env =
  api_post :: "string \<Rightarrow> js_exn + LenovoApiResponse"
  page_script :: "string \<Rightarrow> page_outcome"
  date_ms :: "string \<Rightarrow> int option"
  get_ms :: int
  today_ms :: int
  set_ms :: int

section \<open>The cache\<close>

text \<open>
  Modelled from the spec: the cache is an instance of the node-cache package, which is
  not among the sources. Following the spec (data model, CacheEntry), an entry holds a
  record and an expiry time, and is never returned once \<open>now \<ge> expiresAt\<close>; expired entries
  are treated as absent. \<open>cache.set(key, value)\<close> uses the default time to live,
  \<open>CACHE_TTL = 3600\<close> seconds.
\<close>

record CacheEntry =
  c_value :: WarrantyInfo
  expiresAt :: int

type_synonym cache = "string \<rightharpoonup> CacheEntry"

definition CACHE_TTL :: int where
  "CACHE_TTL = 3600"

definition cache_get :: "cache \<Rightarrow> int \<Rightarrow> string \<Rightarrow> WarrantyInfo option" where
  "cache_get c now k =
     (case c k of
        None \<Rightarrow> None
      | Some e \<Rightarrow> if expiresAt e \<le> now then None else Some (c_value e))"

definition cache_set :: "cache \<Rightarrow> int \<Rightarrow> string \<Rightarrow> WarrantyInfo \<Rightarrow> cache" where
  "cache_set c now k v = c(k \<mapsto> \<lparr>c_value = v, expiresAt = now + CACHE_TTL * 1000\<rparr>)"

text \<open>The cache of a freshly constructed service (\<open>new NodeCache\<close>).\<close>

definition empty_cache :: cache where
  "empty_cache = Map.empty"

section \<open>Status derivation\<close>

text \<open>
  \<open>Math.ceil((endDate.getTime() - today.getTime()) / (1000 * 60 * 60 * 24))\<close>: the
  ceiling of the quotient, written with integer division; \<open>NaN\<close> when the end date is
  invalid.
\<close>

definition MS_PER_DAY :: int where
  "MS_PER_DAY = 1000 * 60 * 60 * 24"

definition days_until :: "int option \<Rightarrow> int \<Rightarrow> jsnum" where
  "days_until endDate today =
     (case endDate of
        None \<Rightarrow> NaN
      | Some e \<Rightarrow> Num (- ((- (e - today)) div MS_PER_DAY)))"

text \<open>The \<open>if\<close> chain that both \<open>scrapeWarrantyInfo\<close> and \<open>parseApiResponse\<close> contain.\<close>

definition status_of_days :: "jsnum \<Rightarrow> warrantyStatus" where
  "status_of_days days =
     (if js_lt days 0 then Expired
      else if js_le days 30 then Expiring_Soon
      else Active)"

text \<open>\<open>x || undefined\<close> on a string: the empty string is falsy.\<close>

definition or_undefined :: "string \<Rightarrow> string option" where
  "or_undefined x = (if x = [] then None else Some x)"

section \<open>The structured source\<close>

definition parseApiResponse :: "env \<Rightarrow> string \<Rightarrow> LenovoApiResponse \<Rightarrow> WarrantyInfo" where
  "parseApiResponse ev serial dat =
     (case (case r_data dat of None \<Rightarrow> None | Some d \<Rightarrow> d_warranty d) of
        None \<Rightarrow>
          \<lparr>serialNumber = serial, productName = None, productType = None,
           warrantyStartDate = None, warrantyEndDate = None, daysRemaining = None,
           warrantyStatus = Not_Found, warrantyType = None, errorMessage = None\<rparr>
      | Some warranty \<Rightarrow>
          (let days = days_until (date_ms ev (w_endDate warranty)) (today_ms ev) in
           \<lparr>serialNumber = serial,
            productName = (case r_data dat of None \<Rightarrow> None | Some d \<Rightarrow> d_product d),
            productType = None,
            warrantyStartDate = Some (w_startDate warranty),
            warrantyEndDate = Some (w_endDate warranty),
            daysRemaining = Some days,
            warrantyStatus = status_of_days days,
            warrantyType = Some (w_type warranty),
            errorMessage = None\<rparr>))"

text \<open>The body of the \<open>try\<close> in \<open>tryApiMethod\<close>, and the method with its \<open>catch\<close>.\<close>

definition tryApiMethod_try :: "env \<Rightarrow> string \<Rightarrow> js_exn + WarrantyInfo option" where
  "tryApiMethod_try ev serial =
     (case api_post ev serial of
        Inl e \<Rightarrow> Inl e
      | Inr dat \<Rightarrow>
          if r_status dat = ''success'' \<and> r_data dat \<noteq> None
          then Inr (Some (parseApiResponse ev serial dat))
          else Inr None)"

definition tryApiMethod :: "env \<Rightarrow> string \<Rightarrow> WarrantyInfo option" where
  "tryApiMethod ev serial =
     (case tryApiMethod_try ev serial of
        Inl e \<Rightarrow> None
      | Inr r \<Rightarrow> r)"

section \<open>The scrape source\<close>

text \<open>Lines 475 to 505: the record built from the extracted fields.\<close>

definition scrape_record :: "env \<Rightarrow> string \<Rightarrow> WarrantyData \<Rightarrow> WarrantyInfo" where
  "scrape_record ev serial wd =
     (let (days, status) =
            (if wd_warrantyEndDate wd \<noteq> [] then
               (let d = days_until (date_ms ev (wd_warrantyEndDate wd)) (today_ms ev)
                in (Some d, status_of_days d))
             else if wd_errorMessage wd \<noteq> [] then (None, Error)
             else (None, Not_Found))
      in \<lparr>serialNumber = serial,
          productName = or_undefined (wd_productName wd),
          productType = or_undefined (wd_productType wd),
          warrantyStartDate = or_undefined (wd_warrantyStartDate wd),
          warrantyEndDate = or_undefined (wd_warrantyEndDate wd),
          daysRemaining = days,
          warrantyStatus = status,
          warrantyType = or_undefined (wd_warrantyType wd),
          errorMessage = or_undefined (wd_errorMessage wd)\<rparr>)"

definition scrapeWarrantyInfo :: "env \<Rightarrow> string \<Rightarrow> js_exn + WarrantyInfo" where
  "scrapeWarrantyInfo ev serial =
     (case page_script ev serial of
        StepThrows e \<Rightarrow> Inl e
      | NoBrowser \<Rightarrow> Inl (ErrorObj ''Failed to initialize browser'')
      | NoSerialInput \<Rightarrow> Inl (ErrorObj ''Serial number input field not found'')
      | NoSubmitButton \<Rightarrow> Inl (ErrorObj ''Submit button not found'')
      | Extracted wd \<Rightarrow> Inr (scrape_record ev serial wd))"

section \<open>Single lookup\<close>

text \<open>
  The effects of a lookup, in the order they happen: a call of the structured client, a
  call of the scrape client, a write to the cache, and the pacing delay of the batch.
\<close>

datatype event =
    ApiCall string
  | ScrapeCall string
  | CacheSet string WarrantyInfo
  | Delay nat

definition cacheKey :: "string \<Rightarrow> string" where
  "cacheKey serial = ''warranty_'' @ serial"

text \<open>
  The \<open>try\<close> block of \<open>checkSingleWarranty\<close>: the result or the exception, the cache
  afterwards and the effects.
\<close>

definition checkSingleWarranty_try ::
  "env \<Rightarrow> cache \<Rightarrow> string \<Rightarrow> (js_exn + WarrantyInfo) \<times> cache \<times> event list" where
  "checkSingleWarranty_try ev c serial =
     (case tryApiMethod ev serial of
        Some apiResult \<Rightarrow>
          (Inr apiResult, cache_set c (set_ms ev) (cacheKey serial) apiResult,
           [ApiCall serial, CacheSet (cacheKey serial) apiResult])
      | None \<Rightarrow>
          (case scrapeWarrantyInfo ev serial of
             Inl e \<Rightarrow> (Inl e, c, [ApiCall serial, ScrapeCall serial])
           | Inr scrapingResult \<Rightarrow>
               (Inr scrapingResult, cache_set c (set_ms ev) (cacheKey serial) scrapingResult,
                [ApiCall serial, ScrapeCall serial, CacheSet (cacheKey serial) scrapingResult])))"

text \<open>The record of the \<open>catch\<close> block.\<close>

definition error_record :: "string \<Rightarrow> js_exn \<Rightarrow> WarrantyInfo" where
  "error_record serial e =
     \<lparr>serialNumber = serial, productName = None, productType = None,
      warrantyStartDate = None, warrantyEndDate = None, daysRemaining = None,
      warrantyStatus = Error, warrantyType = None,
      errorMessage = Some (case e of ErrorObj m \<Rightarrow> m | Thrown \<Rightarrow> ''Unknown error'')\<rparr>"

text \<open>
  \<open>checkSingleWarranty\<close> returns a promise: \<open>Inl\<close> would be a rejection, \<open>Inr\<close> the
  record it resolves to.
\<close>

definition checkSingleWarranty ::
  "env \<Rightarrow> cache \<Rightarrow> string \<Rightarrow> (js_exn + WarrantyInfo) \<times> cache \<times> event list" where
  "checkSingleWarranty ev c serial =
     (case cache_get c (get_ms ev) (cacheKey serial) of
        Some cached \<Rightarrow> (Inr cached, c, [])
      | None \<Rightarrow>
          (case checkSingleWarranty_try ev c serial of
             (Inr r, c', evs) \<Rightarrow> (Inr r, c', evs)
           | (Inl e, c', evs) \<Rightarrow> (Inr (error_record serial e), c', evs)))"

text \<open>The serials for which an effect list calls the structured and the scrape client.\<close>

fun api_calls :: "event list \<Rightarrow> string list" where
  "api_calls [] = []"
| "api_calls (ApiCall s # es) = s # api_calls es"
| "api_calls (e # es) = api_calls es"

fun scrape_calls :: "event list \<Rightarrow> string list" where
  "scrape_calls [] = []"
| "scrape_calls (ScrapeCall s # es) = s # scrape_calls es"
| "scrape_calls (e # es) = scrape_calls es"

text \<open>The serial that an effect of a lookup is about.\<close>

fun event_serial :: "event \<Rightarrow> string option" where
  "event_serial (ApiCall s) = Some s"
| "event_serial (ScrapeCall s) = Some s"
| "event_serial (CacheSet k v) = Some (serialNumber v)"
| "event_serial (Delay ms) = None"

section \<open>Batch lookup\<close>

text \<open>
  \<open>chunkArray\<close>: the loop \<open>for (let i = 0; i < array.length; i += size)\<close> pushes
  \<open>array.slice(i, i + size)\<close>. With \<open>size = 0\<close> and a non-empty array the loop never
  ends, so the function is partial: \<open>None\<close> is not returning.
\<close>

partial_function (option) chunkArray_loop ::
  "'a list \<Rightarrow> nat \<Rightarrow> nat \<Rightarrow> 'a list list \<Rightarrow> 'a list list option" where
  "chunkArray_loop array sz i chunks =
     (if i < length array
      then chunkArray_loop array sz (i + sz) (chunks @ [take sz (drop i array)])
      else Some chunks)"

definition chunkArray :: "'a list \<Rightarrow> nat \<Rightarrow> 'a list list option" where
  "chunkArray array sz = chunkArray_loop array sz 0 []"

text \<open>
  \<open>Promise.all\<close>: the values in the order of the promises, whatever the order in which
  they settle; a rejection if one of them rejects.
\<close>

fun promise_all :: "(js_exn + 'a) list \<Rightarrow> js_exn + 'a list" where
  "promise_all [] = Inr []"
| "promise_all (Inl e # ps) = Inl e"
| "promise_all (Inr v # ps) = (case promise_all ps of Inl e \<Rightarrow> Inl e | Inr vs \<Rightarrow> Inr (v # vs))"

text \<open>
  The lookups of a chunk run concurrently. A schedule is a list of indices into the
  chunk: at each step the lookup named performs its next effect; what is left when the
  schedule ends happens in the order of the chunk.
\<close>

fun interleave :: "nat list \<Rightarrow> 'a list list \<Rightarrow> 'a list" where
  "interleave [] evss = concat evss"
| "interleave (j # sched) evss =
     (if j < length evss then
        (case evss ! j of
           [] \<Rightarrow> interleave sched evss
         | e # es \<Rightarrow> e # interleave sched (evss[j := es]))
      else interleave sched evss)"

text \<open>The cache after a list of effects: only the writes change it.\<close>

fun replay :: "int \<Rightarrow> cache \<Rightarrow> event list \<Rightarrow> cache" where
  "replay now c [] = c"
| "replay now c (CacheSet k v # es) = replay now (cache_set c now k v) es"
| "replay now c (e # es) = replay now c es"

text \<open>
  One iteration of the loop of \<open>checkWarrantyBatch\<close> up to the delay:
  \<open>await Promise.all(chunk.map(serial => this.checkSingleWarranty(serial)))\<close>. Each
  lookup reads the cache synchronously when \<open>map\<close> calls it, so all of them see the
  cache as it is when the chunk starts; their effects, the cache writes among them,
  follow in the order of the schedule.
\<close>

definition run_chunk ::
  "env \<Rightarrow> nat list \<Rightarrow> cache \<Rightarrow> string list \<Rightarrow> (js_exn + WarrantyInfo list) \<times> cache \<times> event list" where
  "run_chunk ev sched c chunk =
     (let runs = map (checkSingleWarranty ev c) chunk;
          evs = interleave sched (map (\<lambda>run. snd (snd run)) runs)
      in (promise_all (map fst runs), replay (set_ms ev) c evs, evs))"

text \<open>
  The loop over the chunks, with one schedule per chunk (the empty schedule when the
  list runs out). A rejected \<open>Promise.all\<close> would end the loop and reject the batch.
\<close>

fun batch_loop ::
  "env \<Rightarrow> nat list list \<Rightarrow> string list list \<Rightarrow> WarrantyInfo list \<Rightarrow> cache \<Rightarrow> event list \<Rightarrow>
   (js_exn + WarrantyInfo list) \<times> cache \<times> event list" where
  "batch_loop ev scheds [] results c tr = (Inr results, c, tr)"
| "batch_loop ev scheds (chunk # rest) results c tr =
     (case run_chunk ev (case scheds of [] \<Rightarrow> [] | sched # _ \<Rightarrow> sched) c chunk of
        (Inl e, c', evs) \<Rightarrow> (Inl e, c', tr @ evs)
      | (Inr chunkResults, c', evs) \<Rightarrow>
          batch_loop ev (tl scheds) rest (results @ chunkResults) c' (tr @ evs @ [Delay 2000]))"

text \<open>
  \<open>checkWarrantyBatch\<close>: \<open>None\<close> if it did not return, else the promise's outcome, the
  cache afterwards and the effects in order. One environment serves the whole batch: the
  sources answer per serial and the clock readings are those of the environment.
\<close>

definition checkWarrantyBatch ::
  "env \<Rightarrow> nat list list \<Rightarrow> cache \<Rightarrow> string list \<Rightarrow>
   ((js_exn + WarrantyInfo list) \<times> cache \<times> event list) option" where
  "checkWarrantyBatch ev scheds c serialNumbers =
     (case chunkArray serialNumbers 10 of
        None \<Rightarrow> None
      | Some chunks \<Rightarrow> Some (batch_loop ev scheds chunks [] c []))"

section \<open>Notions used in the statements and proofs\<close>

text \<open>
  The invariant of the cache: an entry stored under the key of a serial holds a record
  of that serial. It holds of the empty cache and every lookup preserves it.
\<close>

definition cache_ok :: "cache \<Rightarrow> bool" where
  "cache_ok c = (\<forall>k e. c k = Some e \<longrightarrow> k = cacheKey (serialNumber (c_value e)))"

text \<open>
  The spec's "successful, well-formed payload": status \<open>success\<close> with a
  \<open>data.warranty\<close> object.
\<close>

definition well_formed_payload :: "LenovoApiResponse \<Rightarrow> bool" where
  "well_formed_payload dat =
     (r_status dat = ''success'' \<and>
      (case r_data dat of None \<Rightarrow> False | Some d \<Rightarrow> d_warranty d \<noteq> None))"

text \<open>The record of the guard at the head of \<open>parseApiResponse\<close>.\<close>

definition not_found_record :: "string \<Rightarrow> WarrantyInfo" where
  "not_found_record serial =
     \<lparr>serialNumber = serial, productName = None, productType = None,
      warrantyStartDate = None, warrantyEndDate = None, daysRemaining = None,
      warrantyStatus = Not_Found, warrantyType = None, errorMessage = None\<rparr>"

text \<open>The chunks in closed form, by recursion on the list; used to describe the loop.\<close>

function chunks_of :: "nat \<Rightarrow> 'a list \<Rightarrow> 'a list list" where
  "chunks_of n xs = (if n = 0 \<or> xs = [] then [] else take n xs # chunks_of n (drop n xs))"
  by pat_completeness auto
termination
  by (relation "measure (\<lambda>(n, xs). length xs)") auto

text \<open>The record a lookup resolves to, and the effects of a lookup.\<close>

definition lookup_record :: "env \<Rightarrow> cache \<Rightarrow> string \<Rightarrow> WarrantyInfo" where
  "lookup_record ev c s =
     (case fst (checkSingleWarranty ev c s) of Inr r \<Rightarrow> r | Inl e \<Rightarrow> error_record s e)"

definition lookup_events :: "env \<Rightarrow> cache \<Rightarrow> string \<Rightarrow> event list" where
  "lookup_events ev c s = snd (snd (checkSingleWarranty ev c s))"

text \<open>
  Two caches are equivalent for an environment when every lookup resolves to the same
  record from either.
\<close>

definition same_lookups :: "env \<Rightarrow> cache \<Rightarrow> cache \<Rightarrow> bool" where
  "same_lookups ev c c' = (\<forall>s. lookup_record ev c' s = lookup_record ev c s)"

definition chunk_events :: "env \<Rightarrow> nat list \<Rightarrow> cache \<Rightarrow> string list \<Rightarrow> event list" where
  "chunk_events ev sched c chunk = interleave sched (map (lookup_events ev c) chunk)"

text \<open>
  The time until which the record of a lookup is served from the cache: the expiry of
  the entry that the lookup hits or, on a miss, of the entry it stores (the time of the
  write plus the time to live).
\<close>

definition ttl_deadline :: "env \<Rightarrow> cache \<Rightarrow> string \<Rightarrow> int" where
  "ttl_deadline ev c s =
     (case c (cacheKey s) of
        None \<Rightarrow> set_ms ev + CACHE_TTL * 1000
      | Some e \<Rightarrow>
          if expiresAt e \<le> get_ms ev then set_ms ev + CACHE_TTL * 1000 else expiresAt e)"

section \<open>Concrete environments for the examples\<close>

text \<open>
  A day in August 2024 (\<open>1724000000000\<close> ms), an endpoint that does not resolve, and a
  result page for every serial but one, whose navigation times out.
\<close>

definition demo_date_ms :: "string \<Rightarrow> int option" where
  "demo_date_ms str =
     (if str = ''2024-10-02'' then Some 1727827200000
      else if str = ''2024-08-28'' then Some 1724803200000
      else if str = ''2024-08-17'' then Some 1723852800000
      else None)"

definition demo_page :: "string \<Rightarrow> WarrantyData" where
  "demo_page endDate =
     \<lparr>wd_productName = ''ThinkPad T14'', wd_productType = ''Laptop'',
      wd_warrantyStartDate = ''2021-10-02'', wd_warrantyEndDate = endDate,
      wd_warrantyType = ''Depot'', wd_warrantyStatus = [], wd_errorMessage = []\<rparr>"

definition demo_env :: env where
  "demo_env =
     \<lparr>api_post = (\<lambda>s. Inl (ErrorObj ''getaddrinfo ENOTFOUND api.lenovo.com'')),
      page_script = (\<lambda>s. if s = ''PF0BAD01'' then StepThrows (ErrorObj ''Navigation timeout of 30000 ms exceeded'')
                          else Extracted (demo_page ''2024-10-02'')),
      date_ms = demo_date_ms,
      get_ms = 1724000000000, today_ms = 1724000000000, set_ms = 1724000004000\<rparr>"

text \<open>An environment one minute later, in which the result page loads for every serial.\<close>

definition recovered_env :: env where
  "recovered_env =
     demo_env\<lparr>page_script := (\<lambda>s. Extracted (demo_page ''2024-10-02'')),
              get_ms := 1724000060000, today_ms := 1724000061000, set_ms := 1724000064000\<rparr>"

text \<open>Payloads of the structured endpoint, and an environment whose endpoint answers.\<close>

definition payload_ok :: LenovoApiResponse where
  "payload_ok =
     \<lparr>r_status = ''success'',
      r_data = Some \<lparr>d_product = Some ''ThinkPad X1 Carbon'',
                     d_warranty = Some \<lparr>w_startDate = ''2021-08-28'', w_endDate = ''2024-08-28'',
                                        w_type = ''Depot'', w_status = ''In Warranty''\<rparr>\<rparr>,
      r_error = None\<rparr>"

definition payload_no_warranty :: LenovoApiResponse where
  "payload_no_warranty =
     \<lparr>r_status = ''success'',
      r_data = Some \<lparr>d_product = Some ''ThinkPad X1 Carbon'', d_warranty = None\<rparr>,
      r_error = None\<rparr>"

definition api_env :: "LenovoApiResponse \<Rightarrow> env" where
  "api_env dat = demo_env\<lparr>api_post := (\<lambda>s. Inr dat)\<rparr>"



text \<open>A batch of twelve serials, the fourth of which times out, and schedules for its chunks.\<close>

definition demo_serials :: "string list" where
  "demo_serials =
     [''PF2ABC01'', ''PF2ABC02'', ''PF2ABC03'', ''PF0BAD01'', ''PF2ABC05'', ''PF2ABC06'',
      ''PF2ABC07'', ''PF2ABC08'', ''PF2ABC09'', ''PF2ABC10'', ''PF2ABC11'', ''PF2ABC12'']"

definition demo_scheds :: "nat list list" where
  "demo_scheds = [[9, 8, 7, 6, 5, 4, 3, 2, 1, 0, 0, 1, 2], [1, 0]]"

definition batch25 :: "string list" where
  "batch25 = replicate 25 ''PF2ABCDE''"

section \<open>Status derivation: properties\<close>



lemma status_of_days_range: "status_of_days d \<in> {Active, Expired, Expiring_Soon}"
  by (simp add: status_of_days_def)




lemma demo_days:
  "days_until (demo_date_ms ''2024-10-02'') 1724000000000 = Num 45"
  "days_until (demo_date_ms ''2024-08-28'') 1724000000000 = Num 10"
  "days_until (demo_date_ms ''2024-08-17'') 1724000000000 = Num (- 1)"
  "days_until (demo_date_ms ''99/99/2024'') 1724000000000 = NaN"
  by (simp_all add: days_until_def demo_date_ms_def MS_PER_DAY_def)










section \<open>The structured source: properties\<close>

lemma tryApiMethod_None_iff:
  "tryApiMethod ev s = None \<longleftrightarrow>
     (case api_post ev s of
        Inl e \<Rightarrow> True
      | Inr dat \<Rightarrow> r_status dat \<noteq> ''success'' \<or> r_data dat = None)"
  by (simp add: tryApiMethod_def tryApiMethod_try_def split: sum.splits)

lemma tryApiMethod_success:
  "api_post ev s = Inr dat \<Longrightarrow> r_status dat = ''success'' \<Longrightarrow> r_data dat = Some da \<Longrightarrow>
   tryApiMethod ev s = Some (parseApiResponse ev s dat)"
  by (simp add: tryApiMethod_def tryApiMethod_try_def)

lemma parseApiResponse_no_warranty:
  "r_data dat = Some da \<Longrightarrow> d_warranty da = None \<Longrightarrow>
   parseApiResponse ev s dat = not_found_record s"
  by (simp add: parseApiResponse_def not_found_record_def)

lemma parseApiResponse_warranty:
  "r_data dat = Some da \<Longrightarrow> d_warranty da = Some w \<Longrightarrow>
   serialNumber (parseApiResponse ev s dat) = s \<and>
   productName (parseApiResponse ev s dat) = d_product da \<and>
   warrantyStartDate (parseApiResponse ev s dat) = Some (w_startDate w) \<and>
   warrantyEndDate (parseApiResponse ev s dat) = Some (w_endDate w) \<and>
   warrantyType (parseApiResponse ev s dat) = Some (w_type w) \<and>
   warrantyStatus (parseApiResponse ev s dat) \<in> {Active, Expired, Expiring_Soon}"
  using status_of_days_range by (simp add: parseApiResponse_def Let_def)

text \<open>
  C1 as stated fails: a payload with status \<open>success\<close> and a data object but no
  warranty object is not well formed, yet \<open>tryApiMethod\<close> returns a record for it
  (status Not Found) and not \<open>null\<close>, so the scrape fallback is not tried.
\<close>

theorem tryApiMethod_unavailable_counterexample:
  "api_post (api_env payload_no_warranty) ''PF2ABCDE'' = Inr payload_no_warranty \<and>
   \<not> well_formed_payload payload_no_warranty \<and>
   tryApiMethod (api_env payload_no_warranty) ''PF2ABCDE'' = Some (not_found_record ''PF2ABCDE'')"
  by (simp add: api_env_def payload_no_warranty_def well_formed_payload_def
      tryApiMethod_def tryApiMethod_try_def parseApiResponse_def not_found_record_def)

text \<open>
  C1, amended. \<open>tryApiMethod\<close> returns \<open>null\<close> exactly when the request throws, the
  payload's status is not \<open>success\<close>, or the payload has no data object. A payload with
  status \<open>success\<close> and a data object always yields a record: the Not Found record when
  \<open>data.warranty\<close> is absent, and otherwise a record for the serial carrying the
  warranty's dates and type with status Active, Expired or Expiring Soon.
\<close>

theorem tryApiMethod_outcomes:
  "(tryApiMethod ev s = None \<longleftrightarrow>
      (case api_post ev s of
         Inl e \<Rightarrow> True
       | Inr dat \<Rightarrow> r_status dat \<noteq> ''success'' \<or> r_data dat = None)) \<and>
   (\<forall>dat da. api_post ev s = Inr dat \<and> r_status dat = ''success'' \<and> r_data dat = Some da \<longrightarrow>
      (d_warranty da = None \<longrightarrow> tryApiMethod ev s = Some (not_found_record s)) \<and>
      (\<forall>w. d_warranty da = Some w \<longrightarrow>
         (\<exists>r. tryApiMethod ev s = Some r \<and> serialNumber r = s \<and>
              productName r = d_product da \<and>
              warrantyStartDate r = Some (w_startDate w) \<and>
              warrantyEndDate r = Some (w_endDate w) \<and>
              warrantyType r = Some (w_type w) \<and>
              warrantyStatus r \<in> {Active, Expired, Expiring_Soon})))"
proof (intro conjI allI impI)
  show "tryApiMethod ev s = None \<longleftrightarrow>
      (case api_post ev s of
         Inl e \<Rightarrow> True
       | Inr dat \<Rightarrow> r_status dat \<noteq> ''success'' \<or> r_data dat = None)"
    by (rule tryApiMethod_None_iff)
next
  fix dat da
  assume a: "api_post ev s = Inr dat \<and> r_status dat = ''success'' \<and> r_data dat = Some da"
    and b: "d_warranty da = None"
  from a have "tryApiMethod ev s = Some (parseApiResponse ev s dat)"
    by (simp add: tryApiMethod_success)
  with a b show "tryApiMethod ev s = Some (not_found_record s)"
    by (simp add: parseApiResponse_no_warranty)
next
  fix dat da w
  assume a: "api_post ev s = Inr dat \<and> r_status dat = ''success'' \<and> r_data dat = Some da"
    and b: "d_warranty da = Some w"
  from a have "tryApiMethod ev s = Some (parseApiResponse ev s dat)"
    by (simp add: tryApiMethod_success)
  moreover from a b have
    "serialNumber (parseApiResponse ev s dat) = s \<and>
     productName (parseApiResponse ev s dat) = d_product da \<and>
     warrantyStartDate (parseApiResponse ev s dat) = Some (w_startDate w) \<and>
     warrantyEndDate (parseApiResponse ev s dat) = Some (w_endDate w) \<and>
     warrantyType (parseApiResponse ev s dat) = Some (w_type w) \<and>
     warrantyStatus (parseApiResponse ev s dat) \<in> {Active, Expired, Expiring_Soon}"
    using parseApiResponse_warranty [of dat da w ev s] by simp
  ultimately show "\<exists>r. tryApiMethod ev s = Some r \<and> serialNumber r = s \<and>
              productName r = d_product da \<and>
              warrantyStartDate r = Some (w_startDate w) \<and>
              warrantyEndDate r = Some (w_endDate w) \<and>
              warrantyType r = Some (w_type w) \<and>
              warrantyStatus r \<in> {Active, Expired, Expiring_Soon}"
    by blast
qed

theorem tryApiMethod_outcomes_witness:
  "tryApiMethod demo_env ''PF2ABCDE'' = None \<and>
   tryApiMethod (api_env (payload_ok\<lparr>r_status := ''error''\<rparr>)) ''PF2ABCDE'' = None \<and>
   tryApiMethod (api_env payload_no_warranty) ''PF2ABCDE'' = Some (not_found_record ''PF2ABCDE'') \<and>
   (\<exists>r. tryApiMethod (api_env payload_ok) ''PF2ABCDE'' = Some r \<and> serialNumber r = ''PF2ABCDE'' \<and>
        warrantyEndDate r = Some ''2024-08-28'' \<and>
        warrantyStatus r \<in> {Active, Expired, Expiring_Soon})"
proof (intro conjI)
  show "tryApiMethod demo_env ''PF2ABCDE'' = None"
    using tryApiMethod_outcomes [of demo_env "''PF2ABCDE''"]
    by (simp add: demo_env_def)
next
  show "tryApiMethod (api_env (payload_ok\<lparr>r_status := ''error''\<rparr>)) ''PF2ABCDE'' = None"
    using tryApiMethod_outcomes [of "api_env (payload_ok\<lparr>r_status := ''error''\<rparr>)" "''PF2ABCDE''"]
    by (simp add: demo_env_def api_env_def payload_ok_def)
next
  have "api_post (api_env payload_no_warranty) ''PF2ABCDE'' = Inr payload_no_warranty \<and>
        r_status payload_no_warranty = ''success'' \<and>
        r_data payload_no_warranty =
          Some \<lparr>d_product = Some ''ThinkPad X1 Carbon'', d_warranty = None\<rparr>"
    by (simp add: api_env_def payload_no_warranty_def)
  then show "tryApiMethod (api_env payload_no_warranty) ''PF2ABCDE'' =
      Some (not_found_record ''PF2ABCDE'')"
    using tryApiMethod_outcomes [of "api_env payload_no_warranty" "''PF2ABCDE''"]
    by simp
next
  let ?w = "\<lparr>w_startDate = ''2021-08-28'', w_endDate = ''2024-08-28'',
             w_type = ''Depot'', w_status = ''In Warranty''\<rparr>"
  let ?d = "\<lparr>d_product = Some ''ThinkPad X1 Carbon'', d_warranty = Some ?w\<rparr>"
  have "api_post (api_env payload_ok) ''PF2ABCDE'' = Inr payload_ok \<and>
        r_status payload_ok = ''success'' \<and> r_data payload_ok = Some ?d"
    by (simp add: api_env_def payload_ok_def)
  moreover have "d_warranty ?d = Some ?w"
    by simp
  ultimately have "\<exists>r. tryApiMethod (api_env payload_ok) ''PF2ABCDE'' = Some r \<and>
      serialNumber r = ''PF2ABCDE'' \<and> productName r = d_product ?d \<and>
      warrantyStartDate r = Some (w_startDate ?w) \<and>
      warrantyEndDate r = Some (w_endDate ?w) \<and>
      warrantyType r = Some (w_type ?w) \<and>
      warrantyStatus r \<in> {Active, Expired, Expiring_Soon}"
    using tryApiMethod_outcomes [of "api_env payload_ok" "''PF2ABCDE''"]
    by blast
  then show "\<exists>r. tryApiMethod (api_env payload_ok) ''PF2ABCDE'' = Some r \<and>
      serialNumber r = ''PF2ABCDE'' \<and> warrantyEndDate r = Some ''2024-08-28'' \<and>
      warrantyStatus r \<in> {Active, Expired, Expiring_Soon}"
    by auto
qed

section \<open>Single lookup: properties\<close>

lemma cacheKey_inj [simp]: "cacheKey s = cacheKey t \<longleftrightarrow> s = t"
  by (simp add: cacheKey_def)

lemma checkSingleWarranty_hit:
  "cache_get c (get_ms ev) (cacheKey s) = Some r \<Longrightarrow>
   checkSingleWarranty ev c s = (Inr r, c, [])"
  by (simp add: checkSingleWarranty_def)

lemma checkSingleWarranty_api:
  "cache_get c (get_ms ev) (cacheKey s) = None \<Longrightarrow> tryApiMethod ev s = Some r \<Longrightarrow>
   checkSingleWarranty ev c s =
     (Inr r, cache_set c (set_ms ev) (cacheKey s) r, [ApiCall s, CacheSet (cacheKey s) r])"
  by (simp add: checkSingleWarranty_def checkSingleWarranty_try_def)

lemma checkSingleWarranty_scraped:
  "cache_get c (get_ms ev) (cacheKey s) = None \<Longrightarrow> tryApiMethod ev s = None \<Longrightarrow>
   scrapeWarrantyInfo ev s = Inr r \<Longrightarrow>
   checkSingleWarranty ev c s =
     (Inr r, cache_set c (set_ms ev) (cacheKey s) r,
      [ApiCall s, ScrapeCall s, CacheSet (cacheKey s) r])"
  by (simp add: checkSingleWarranty_def checkSingleWarranty_try_def)

lemma checkSingleWarranty_caught:
  "cache_get c (get_ms ev) (cacheKey s) = None \<Longrightarrow> tryApiMethod ev s = None \<Longrightarrow>
   scrapeWarrantyInfo ev s = Inl e \<Longrightarrow>
   checkSingleWarranty ev c s = (Inr (error_record s e), c, [ApiCall s, ScrapeCall s])"
  by (simp add: checkSingleWarranty_def checkSingleWarranty_try_def)

lemma try_throws_iff:
  "fst (checkSingleWarranty_try ev c s) = Inl e \<longleftrightarrow>
     tryApiMethod ev s = None \<and> scrapeWarrantyInfo ev s = Inl e"
  by (auto simp: checkSingleWarranty_try_def split: option.splits sum.splits)

lemma checkSingleWarranty_cases:
  obtains (hit) r where "cache_get c (get_ms ev) (cacheKey s) = Some r"
  | (api) r where "cache_get c (get_ms ev) (cacheKey s) = None" "tryApiMethod ev s = Some r"
  | (scraped) r where "cache_get c (get_ms ev) (cacheKey s) = None" "tryApiMethod ev s = None"
      "scrapeWarrantyInfo ev s = Inr r"
  | (caught) e where "cache_get c (get_ms ev) (cacheKey s) = None" "tryApiMethod ev s = None"
      "scrapeWarrantyInfo ev s = Inl e"
proof (cases "cache_get c (get_ms ev) (cacheKey s)")
  case None
  show ?thesis
  proof (cases "tryApiMethod ev s")
    case a: None
    show ?thesis
    proof (cases "scrapeWarrantyInfo ev s")
      case (Inl e)
      with None a show ?thesis by (rule caught)
    next
      case (Inr r)
      with None a show ?thesis by (rule scraped)
    qed
  next
    case (Some r)
    with None show ?thesis by (rule api)
  qed
next
  case (Some r)
  then show ?thesis by (rule hit)
qed

lemma checkSingleWarranty_Inr: "\<exists>r. fst (checkSingleWarranty ev c s) = Inr r"
  by (cases c ev s rule: checkSingleWarranty_cases)
     (simp_all add: checkSingleWarranty_hit checkSingleWarranty_api
       checkSingleWarranty_scraped checkSingleWarranty_caught)

lemma tryApiMethod_serial: "tryApiMethod ev s = Some r \<Longrightarrow> serialNumber r = s"
  by (auto simp: tryApiMethod_def tryApiMethod_try_def parseApiResponse_def Let_def
      split: sum.splits if_splits option.splits)

lemma scrapeWarrantyInfo_serial: "scrapeWarrantyInfo ev s = Inr r \<Longrightarrow> serialNumber r = s"
  by (auto simp: scrapeWarrantyInfo_def scrape_record_def Let_def
      split: page_outcome.splits if_splits)

lemma error_record_serial [simp]: "serialNumber (error_record s e) = s"
  by (simp add: error_record_def)

lemma cache_ok_hit:
  "cache_ok c \<Longrightarrow> cache_get c now (cacheKey s) = Some r \<Longrightarrow> serialNumber r = s"
proof -
  assume ok: "cache_ok c" and get: "cache_get c now (cacheKey s) = Some r"
  from get obtain e where e: "c (cacheKey s) = Some e" "r = c_value e"
    by (auto simp: cache_get_def split: option.splits if_splits)
  from ok e(1) have "cacheKey s = cacheKey (serialNumber (c_value e))"
    unfolding cache_ok_def by blast
  with e(2) show "serialNumber r = s"
    by simp
qed

lemma cache_ok_empty: "cache_ok empty_cache"
  by (simp add: cache_ok_def empty_cache_def)

lemma cache_ok_set:
  "cache_ok c \<Longrightarrow> serialNumber r = s \<Longrightarrow> cache_ok (cache_set c now (cacheKey s) r)"
  by (simp add: cache_ok_def cache_set_def)

lemma checkSingleWarranty_cache_ok:
  assumes "cache_ok c"
  shows "cache_ok (fst (snd (checkSingleWarranty ev c s)))"
proof (cases c ev s rule: checkSingleWarranty_cases)
  case (hit r)
  with assms show ?thesis by (simp add: checkSingleWarranty_hit)
next
  case (api r)
  with assms show ?thesis
    by (simp add: checkSingleWarranty_api cache_ok_set tryApiMethod_serial)
next
  case (scraped r)
  with assms show ?thesis
    by (simp add: checkSingleWarranty_scraped cache_ok_set scrapeWarrantyInfo_serial)
next
  case (caught e)
  with assms show ?thesis by (simp add: checkSingleWarranty_caught)
qed

lemma cache_get_empty [simp]: "cache_get empty_cache now k = None"
  by (simp add: cache_get_def empty_cache_def)

lemma demo_api_unavailable [simp]: "tryApiMethod demo_env s = None"
  by (simp add: tryApiMethod_def tryApiMethod_try_def demo_env_def)

lemma recovered_api_unavailable [simp]: "tryApiMethod recovered_env s = None"
  by (simp add: tryApiMethod_def tryApiMethod_try_def demo_env_def recovered_env_def)

lemma demo_scrape_throws:
  "scrapeWarrantyInfo demo_env ''PF0BAD01'' =
     Inl (ErrorObj ''Navigation timeout of 30000 ms exceeded'')"
  by (simp add: scrapeWarrantyInfo_def demo_env_def)

lemma demo_scrape_loads:
  "s \<noteq> ''PF0BAD01'' \<Longrightarrow>
   scrapeWarrantyInfo demo_env s = Inr (scrape_record demo_env s (demo_page ''2024-10-02''))"
  by (simp add: scrapeWarrantyInfo_def demo_env_def)

lemma recovered_scrape_loads:
  "scrapeWarrantyInfo recovered_env s =
     Inr (scrape_record recovered_env s (demo_page ''2024-10-02''))"
  by (simp add: scrapeWarrantyInfo_def recovered_env_def)

lemma demo_clock [simp]:
  "get_ms demo_env = 1724000000000" "set_ms demo_env = 1724000004000"
  "get_ms recovered_env = 1724000060000" "set_ms recovered_env = 1724000064000"
  by (simp_all add: demo_env_def recovered_env_def)

lemma demo_first_lookup:
  "checkSingleWarranty demo_env empty_cache ''PF2ABCDE'' =
     (Inr (scrape_record demo_env ''PF2ABCDE'' (demo_page ''2024-10-02'')),
      cache_set empty_cache 1724000004000 (cacheKey ''PF2ABCDE'')
        (scrape_record demo_env ''PF2ABCDE'' (demo_page ''2024-10-02'')),
      [ApiCall ''PF2ABCDE'', ScrapeCall ''PF2ABCDE'',
       CacheSet (cacheKey ''PF2ABCDE'') (scrape_record demo_env ''PF2ABCDE'' (demo_page ''2024-10-02''))])"
  using checkSingleWarranty_scraped [of empty_cache demo_env "''PF2ABCDE''", OF _ _ demo_scrape_loads]
  by simp

text \<open>
  C9. For every serial, the record that \<open>checkSingleWarranty\<close> returns carries that
  serial, on every path (cache hit, structured result, scrape result, converted
  exception), in every state of the cache that the service can reach.
\<close>

theorem checkSingleWarranty_serialNumber:
  "cache_ok c \<Longrightarrow> \<exists>r. fst (checkSingleWarranty ev c s) = Inr r \<and> serialNumber r = s"
proof -
  assume ok: "cache_ok c"
  show ?thesis
  proof (cases c ev s rule: checkSingleWarranty_cases)
    case (hit r)
    with ok show ?thesis by (simp add: checkSingleWarranty_hit cache_ok_hit [of c _ s r])
  next
    case (api r)
    then show ?thesis by (simp add: checkSingleWarranty_api tryApiMethod_serial)
  next
    case (scraped r)
    then show ?thesis by (simp add: checkSingleWarranty_scraped scrapeWarrantyInfo_serial)
  next
    case (caught e)
    then show ?thesis by (simp add: checkSingleWarranty_caught)
  qed
qed

theorem checkSingleWarranty_serialNumber_witness:
  "cache_ok empty_cache \<and>
   (\<exists>r. fst (checkSingleWarranty demo_env empty_cache ''PF0BAD01'') = Inr r \<and>
        serialNumber r = ''PF0BAD01'') \<and>
   cache_ok (fst (snd (checkSingleWarranty demo_env empty_cache ''PF2ABCDE''))) \<and>
   (\<exists>r. fst (checkSingleWarranty recovered_env
              (fst (snd (checkSingleWarranty demo_env empty_cache ''PF2ABCDE''))) ''PF2ABCDE'') = Inr r \<and>
        serialNumber r = ''PF2ABCDE'')"
  using checkSingleWarranty_serialNumber [OF cache_ok_empty, of demo_env "''PF0BAD01''"]
    checkSingleWarranty_serialNumber
      [OF checkSingleWarranty_cache_ok [OF cache_ok_empty, of demo_env "''PF2ABCDE''"],
       of recovered_env "''PF2ABCDE''"]
    cache_ok_empty checkSingleWarranty_cache_ok [OF cache_ok_empty, of demo_env "''PF2ABCDE''"]
  by simp

text \<open>
  C6. When the serial is not in the cache and the structured client returns
  unavailable, the lookup calls the scrape client exactly once, for that serial.
\<close>

theorem fallback_scrapes_once:
  "cache_get c (get_ms ev) (cacheKey s) = None \<Longrightarrow> tryApiMethod ev s = None \<Longrightarrow>
   scrape_calls (snd (snd (checkSingleWarranty ev c s))) = [s]"
  by (cases "scrapeWarrantyInfo ev s")
     (simp_all add: checkSingleWarranty_caught checkSingleWarranty_scraped)

theorem fallback_scrapes_once_witness:
  "cache_get empty_cache (get_ms demo_env) (cacheKey ''PF2ABCDE'') = None \<and>
   tryApiMethod demo_env ''PF2ABCDE'' = None \<and>
   scrape_calls (snd (snd (checkSingleWarranty demo_env empty_cache ''PF2ABCDE''))) = [''PF2ABCDE'']"
  using fallback_scrapes_once [of empty_cache demo_env "''PF2ABCDE''"]
  by simp

text \<open>
  C3 as stated fails. The navigation for PF0BAD01 times out, so the first call returns
  the Error record of the catch block and leaves the cache empty. The second call, one
  minute later and well within the time to live, calls both clients again and returns
  another record.
\<close>

theorem idempotence_counterexample:
  "checkSingleWarranty demo_env empty_cache ''PF0BAD01'' =
     (Inr (error_record ''PF0BAD01'' (ErrorObj ''Navigation timeout of 30000 ms exceeded'')),
      empty_cache, [ApiCall ''PF0BAD01'', ScrapeCall ''PF0BAD01'']) \<and>
   api_calls (snd (snd (checkSingleWarranty recovered_env empty_cache ''PF0BAD01''))) = [''PF0BAD01''] \<and>
   scrape_calls (snd (snd (checkSingleWarranty recovered_env empty_cache ''PF0BAD01''))) = [''PF0BAD01''] \<and>
   fst (checkSingleWarranty recovered_env empty_cache ''PF0BAD01'') \<noteq>
     fst (checkSingleWarranty demo_env empty_cache ''PF0BAD01'')"
  by (simp add: checkSingleWarranty_caught [OF _ _ demo_scrape_throws]
      checkSingleWarranty_scraped [OF _ _ recovered_scrape_loads]
      error_record_def scrape_record_def demo_page_def Let_def)

lemma ttl_deadline_miss:
  "cache_get c (get_ms ev) (cacheKey s) = None \<Longrightarrow>
   ttl_deadline ev c s = set_ms ev + CACHE_TTL * 1000"
  by (auto simp: ttl_deadline_def cache_get_def split: option.splits if_splits)

lemma ttl_deadline_hit:
  "cache_get c (get_ms ev) (cacheKey s) = Some r \<Longrightarrow>
   \<exists>e. c (cacheKey s) = Some e \<and> c_value e = r \<and> expiresAt e = ttl_deadline ev c s"
  by (auto simp: ttl_deadline_def cache_get_def split: option.splits if_splits)

lemma stored_then_hit:
  assumes first: "checkSingleWarranty ev1 c s = (r1, c1, evs1)"
    and second: "checkSingleWarranty ev2 c1 s = (r2, c2, evs2)"
    and miss: "cache_get c (get_ms ev1) (cacheKey s) = None"
    and stored: "r1 = Inr r" "c1 = cache_set c (set_ms ev1) (cacheKey s) r"
    and fresh: "get_ms ev2 < ttl_deadline ev1 c s"
  shows "(\<exists>e. c1 (cacheKey s) = Some e \<and> r1 = Inr (c_value e) \<and>
              expiresAt e = ttl_deadline ev1 c s) \<and>
         r2 = r1 \<and> c2 = c1 \<and> evs2 = [] \<and> api_calls evs2 = [] \<and> scrape_calls evs2 = []"
proof -
  have dl: "ttl_deadline ev1 c s = set_ms ev1 + CACHE_TTL * 1000"
    using miss by (rule ttl_deadline_miss)
  have entry: "c1 (cacheKey s) = Some \<lparr>c_value = r, expiresAt = set_ms ev1 + CACHE_TTL * 1000\<rparr>"
    using stored(2) by (simp add: cache_set_def)
  with fresh dl have "cache_get c1 (get_ms ev2) (cacheKey s) = Some r"
    by (simp add: cache_get_def)
  with second have "r2 = Inr r" "c2 = c1" "evs2 = []"
    by (simp_all add: checkSingleWarranty_hit)
  with entry dl stored(1) show ?thesis
    by simp
qed

text \<open>
  C3, amended. If the first call does not end in the catch block (it hits the cache, or
  a source returns a record), then afterwards the cache holds the record it returned:
  the entry it hit, or on a miss a new entry that expires one time to live after the
  write. A second call before that entry expires returns the identical record, leaves
  the cache as it is and calls neither client.
\<close>

theorem idempotence_within_ttl:
  assumes first: "checkSingleWarranty ev1 c s = (r1, c1, evs1)"
    and second: "checkSingleWarranty ev2 c1 s = (r2, c2, evs2)"
    and resolved: "\<not> (cache_get c (get_ms ev1) (cacheKey s) = None \<and>
                      (\<exists>x. fst (checkSingleWarranty_try ev1 c s) = Inl x))"
    and fresh: "get_ms ev2 < ttl_deadline ev1 c s"
  shows "(\<exists>e. c1 (cacheKey s) = Some e \<and> r1 = Inr (c_value e) \<and>
              expiresAt e = ttl_deadline ev1 c s) \<and>
         r2 = r1 \<and> c2 = c1 \<and> evs2 = [] \<and> api_calls evs2 = [] \<and> scrape_calls evs2 = []"
proof (cases c ev1 s rule: checkSingleWarranty_cases)
  case (hit r)
  with first have 1: "c1 = c" "r1 = Inr r"
    by (simp_all add: checkSingleWarranty_hit)
  from ttl_deadline_hit [OF hit]
  obtain e where e: "c (cacheKey s) = Some e" "c_value e = r"
    "expiresAt e = ttl_deadline ev1 c s"
    by blast
  with fresh 1 have "cache_get c1 (get_ms ev2) (cacheKey s) = Some r"
    by (simp add: cache_get_def)
  with second have "r2 = Inr r" "c2 = c1" "evs2 = []"
    by (simp_all add: checkSingleWarranty_hit)
  with 1 e show ?thesis
    by simp
next
  case (api r)
  with first have st: "r1 = Inr r" "c1 = cache_set c (set_ms ev1) (cacheKey s) r"
    by (simp_all add: checkSingleWarranty_api)
  show ?thesis
    by (rule stored_then_hit [OF first second api(1) st fresh])
next
  case (scraped r)
  with first have st: "r1 = Inr r" "c1 = cache_set c (set_ms ev1) (cacheKey s) r"
    by (simp_all add: checkSingleWarranty_scraped)
  show ?thesis
    by (rule stored_then_hit [OF first second scraped(1) st fresh])
next
  case (caught x)
  then have "cache_get c (get_ms ev1) (cacheKey s) = None \<and>
      (\<exists>x. fst (checkSingleWarranty_try ev1 c s) = Inl x)"
    by (auto simp: try_throws_iff)
  with resolved show ?thesis
    by contradiction
qed

theorem idempotence_within_ttl_witness:
  "\<not> (cache_get empty_cache (get_ms demo_env) (cacheKey ''PF2ABCDE'') = None \<and>
       (\<exists>x. fst (checkSingleWarranty_try demo_env empty_cache ''PF2ABCDE'') = Inl x)) \<and>
   get_ms recovered_env < ttl_deadline demo_env empty_cache ''PF2ABCDE'' \<and>
   (\<exists>e. fst (snd (checkSingleWarranty demo_env empty_cache ''PF2ABCDE'')) (cacheKey ''PF2ABCDE'') = Some e \<and>
        fst (checkSingleWarranty demo_env empty_cache ''PF2ABCDE'') = Inr (c_value e) \<and>
        expiresAt e = 1724003604000) \<and>
   fst (checkSingleWarranty recovered_env
          (fst (snd (checkSingleWarranty demo_env empty_cache ''PF2ABCDE''))) ''PF2ABCDE'') =
     fst (checkSingleWarranty demo_env empty_cache ''PF2ABCDE'') \<and>
   snd (snd (checkSingleWarranty recovered_env
          (fst (snd (checkSingleWarranty demo_env empty_cache ''PF2ABCDE''))) ''PF2ABCDE'')) = []"
proof -
  let ?r = "scrape_record demo_env ''PF2ABCDE'' (demo_page ''2024-10-02'')"
  let ?c1 = "cache_set empty_cache 1724000004000 (cacheKey ''PF2ABCDE'') ?r"
  obtain r2 c2 evs2 where 2: "checkSingleWarranty recovered_env ?c1 ''PF2ABCDE'' = (r2, c2, evs2)"
    by (cases "checkSingleWarranty recovered_env ?c1 ''PF2ABCDE''") auto
  have resolved: "\<not> (cache_get empty_cache (get_ms demo_env) (cacheKey ''PF2ABCDE'') = None \<and>
      (\<exists>x. fst (checkSingleWarranty_try demo_env empty_cache ''PF2ABCDE'') = Inl x))"
    by (simp add: try_throws_iff demo_scrape_loads)
  have dl: "ttl_deadline demo_env empty_cache ''PF2ABCDE'' = 1724003604000"
    by (simp add: ttl_deadline_miss CACHE_TTL_def)
  then have fresh: "get_ms recovered_env < ttl_deadline demo_env empty_cache ''PF2ABCDE''"
    by simp
  from idempotence_within_ttl [OF demo_first_lookup 2 resolved fresh]
  have "(\<exists>e. ?c1 (cacheKey ''PF2ABCDE'') = Some e \<and> Inr ?r = Inr (c_value e) \<and>
            expiresAt e = ttl_deadline demo_env empty_cache ''PF2ABCDE'') \<and>
      r2 = Inr ?r \<and> c2 = ?c1 \<and> evs2 = []"
    by simp
  with 2 resolved fresh dl show ?thesis
    by (simp add: demo_first_lookup)
qed

text \<open>
  C10. When the \<open>try\<close> block of \<open>checkSingleWarranty\<close> throws, the call returns the
  Error record of the \<open>catch\<close> block and the cache is exactly what it was: the record is
  not stored. A later call for the same serial therefore misses the cache again and
  calls the structured client again, and the scrape client too when the structured
  client is unavailable again.
\<close>

theorem caught_error_not_cached:
  assumes miss: "cache_get c (get_ms ev) (cacheKey s) = None"
    and thrown: "fst (checkSingleWarranty_try ev c s) = Inl e"
    and later: "get_ms ev \<le> get_ms ev2"
  shows "checkSingleWarranty ev c s = (Inr (error_record s e), c, [ApiCall s, ScrapeCall s]) \<and>
         warrantyStatus (error_record s e) = Error \<and>
         cache_get c (get_ms ev2) (cacheKey s) = None \<and>
         api_calls (snd (snd (checkSingleWarranty ev2 c s))) = [s] \<and>
         (tryApiMethod ev2 s = None \<longrightarrow>
            scrape_calls (snd (snd (checkSingleWarranty ev2 c s))) = [s])"
proof -
  from thrown have t: "tryApiMethod ev s = None" "scrapeWarrantyInfo ev s = Inl e"
    by (simp_all add: try_throws_iff)
  from miss later have miss2: "cache_get c (get_ms ev2) (cacheKey s) = None"
    by (auto simp: cache_get_def split: option.splits if_splits)
  have "api_calls (snd (snd (checkSingleWarranty ev2 c s))) = [s]"
    using miss2
    by (cases c ev2 s rule: checkSingleWarranty_cases)
       (simp_all add: checkSingleWarranty_api checkSingleWarranty_scraped
         checkSingleWarranty_caught)
  moreover have "tryApiMethod ev2 s = None \<longrightarrow>
      scrape_calls (snd (snd (checkSingleWarranty ev2 c s))) = [s]"
    using miss2
    by (cases c ev2 s rule: checkSingleWarranty_cases)
       (simp_all add: checkSingleWarranty_scraped checkSingleWarranty_caught)
  ultimately show ?thesis
    using miss miss2 t by (simp add: checkSingleWarranty_caught error_record_def)
qed

theorem caught_error_not_cached_witness:
  "cache_get empty_cache (get_ms demo_env) (cacheKey ''PF0BAD01'') = None \<and>
   fst (checkSingleWarranty_try demo_env empty_cache ''PF0BAD01'') =
     Inl (ErrorObj ''Navigation timeout of 30000 ms exceeded'') \<and>
   get_ms demo_env \<le> get_ms recovered_env \<and>
   fst (snd (checkSingleWarranty demo_env empty_cache ''PF0BAD01'')) = empty_cache \<and>
   api_calls (snd (snd (checkSingleWarranty recovered_env empty_cache ''PF0BAD01''))) = [''PF0BAD01''] \<and>
   scrape_calls (snd (snd (checkSingleWarranty recovered_env empty_cache ''PF0BAD01''))) = [''PF0BAD01'']"
proof -
  have thrown: "fst (checkSingleWarranty_try demo_env empty_cache ''PF0BAD01'') =
      Inl (ErrorObj ''Navigation timeout of 30000 ms exceeded'')"
    by (simp add: try_throws_iff demo_scrape_throws)
  have miss: "cache_get empty_cache (get_ms demo_env) (cacheKey ''PF0BAD01'') = None"
    by simp
  have later: "get_ms demo_env \<le> get_ms recovered_env"
    by simp
  show ?thesis
    using caught_error_not_cached [OF miss thrown later] thrown
    by simp
qed

section \<open>Chunking: properties\<close>

declare chunks_of.simps [simp del]

lemma chunks_of_Nil [simp]: "chunks_of n [] = []"
  by (simp add: chunks_of.simps)

lemma chunks_of_step:
  "0 < n \<Longrightarrow> xs \<noteq> [] \<Longrightarrow> chunks_of n xs = take n xs # chunks_of n (drop n xs)"
  by (subst chunks_of.simps) simp

lemma chunkArray_loop_chunks_of:
  "0 < n \<Longrightarrow> chunkArray_loop xs n i acc = Some (acc @ chunks_of n (drop i xs))"
proof (induction "length xs - i" arbitrary: i acc rule: less_induct)
  case less
  show ?case
  proof (cases "i < length xs")
    case True
    with less.prems have "length xs - (i + n) < length xs - i"
      by simp
    from less.hyps [OF this less.prems]
    have "chunkArray_loop xs n (i + n) (acc @ [take n (drop i xs)]) =
        Some ((acc @ [take n (drop i xs)]) @ chunks_of n (drop (i + n) xs))" .
    moreover from True less.prems
    have "chunks_of n (drop i xs) = take n (drop i xs) # chunks_of n (drop (i + n) xs)"
      by (simp add: chunks_of_step add.commute)
    ultimately show ?thesis
      using True by (subst chunkArray_loop.simps) simp
  next
    case False
    then show ?thesis
      by (subst chunkArray_loop.simps) simp
  qed
qed

lemma chunkArray_chunks_of: "0 < n \<Longrightarrow> chunkArray xs n = Some (chunks_of n xs)"
  by (simp add: chunkArray_def chunkArray_loop_chunks_of)

lemma concat_chunks_of: "0 < n \<Longrightarrow> concat (chunks_of n xs) = xs"
proof (induction n xs rule: chunks_of.induct)
  case (1 n xs)
  show ?case
  proof (cases "xs = []")
    case True
    then show ?thesis by simp
  next
    case False
    with 1 show ?thesis
      by (simp add: chunks_of_step)
  qed
qed

lemma chunks_of_sizes:
  "0 < n \<Longrightarrow> Suc k < length (chunks_of n xs) \<Longrightarrow> length (chunks_of n xs ! k) = n"
proof (induction n xs arbitrary: k rule: chunks_of.induct)
  case (1 n xs)
  show ?case
  proof (cases "xs = []")
    case True
    with 1(3) show ?thesis by simp
  next
    case False
    note ne = this
    with 1(2) have step: "chunks_of n xs = take n xs # chunks_of n (drop n xs)"
      by (simp add: chunks_of_step)
    show ?thesis
    proof (cases k)
      case 0
      with 1(3) step have "chunks_of n (drop n xs) \<noteq> []"
        by auto
      then have "drop n xs \<noteq> []"
        by auto
      then have "n < length xs"
        by simp
      with 0 step show ?thesis
        by simp
    next
      case (Suc j)
      with 1(3) step have "Suc j < length (chunks_of n (drop n xs))"
        by simp
      with 1(1) [of j] 1(2) ne have "length (chunks_of n (drop n xs) ! j) = n"
        by simp
      with Suc step show ?thesis
        by simp
    qed
  qed
qed

lemma chunks_of_bounds:
  "0 < n \<Longrightarrow> ch \<in> set (chunks_of n xs) \<Longrightarrow> ch \<noteq> [] \<and> length ch \<le> n"
proof (induction n xs rule: chunks_of.induct)
  case (1 n xs)
  show ?case
  proof (cases "xs = []")
    case True
    with 1(3) show ?thesis by simp
  next
    case False
    with 1 show ?thesis
      by (auto simp: chunks_of_step)
  qed
qed

lemma chunks_of_25:
  assumes "length xs = 25"
  shows "map length (chunks_of 10 xs) = [10, 10, 5]"
proof -
  from assms have ne: "xs \<noteq> []" "drop 10 xs \<noteq> []" "drop 20 xs \<noteq> []" "drop 30 xs = []"
    by auto
  have "chunks_of 10 xs = take 10 xs # chunks_of 10 (drop 10 xs)"
    using ne(1) by (simp add: chunks_of_step)
  moreover have "chunks_of 10 (drop 10 xs) = take 10 (drop 10 xs) # chunks_of 10 (drop 20 xs)"
    using ne(2) by (simp add: chunks_of_step)
  moreover have "chunks_of 10 (drop 20 xs) = take 10 (drop 20 xs) # chunks_of 10 (drop 30 xs)"
    using ne(3) by (simp add: chunks_of_step)
  ultimately show ?thesis
    using assms ne(4) by simp
qed

lemma chunks_of_demo_serials:
  "chunks_of 10 demo_serials = [take 10 demo_serials, [''PF2ABC11'', ''PF2ABC12'']]"
proof -
  have "chunks_of 10 demo_serials = take 10 demo_serials # chunks_of 10 (drop 10 demo_serials)"
    by (rule chunks_of_step) (simp_all add: demo_serials_def)
  moreover have "drop 10 demo_serials = [''PF2ABC11'', ''PF2ABC12'']"
    by (simp add: demo_serials_def)
  moreover have "chunks_of 10 [''PF2ABC11'', ''PF2ABC12''] =
      take 10 [''PF2ABC11'', ''PF2ABC12''] # chunks_of 10 (drop 10 [''PF2ABC11'', ''PF2ABC12''])"
    by (rule chunks_of_step) simp_all
  ultimately show ?thesis
    by simp
qed

text \<open>
  C7. \<open>chunkArray\<close> with size 10 returns; the chunks concatenated are the input; every
  chunk but the last has exactly 10 elements (and none is empty or longer than 10); 25
  elements give chunks of sizes 10, 10 and 5.
\<close>

theorem chunkArray_tens:
  "\<exists>chunks. chunkArray xs 10 = Some chunks \<and> concat chunks = xs \<and>
     (\<forall>k. Suc k < length chunks \<longrightarrow> length (chunks ! k) = 10) \<and>
     (\<forall>ch \<in> set chunks. ch \<noteq> [] \<and> length ch \<le> 10) \<and>
     (length xs = 25 \<longrightarrow> map length chunks = [10, 10, 5])"
proof (intro exI conjI)
  show "chunkArray xs 10 = Some (chunks_of 10 xs)"
    by (simp add: chunkArray_chunks_of)
  show "concat (chunks_of 10 xs) = xs"
    by (simp add: concat_chunks_of)
  show "\<forall>k. Suc k < length (chunks_of 10 xs) \<longrightarrow> length (chunks_of 10 xs ! k) = 10"
    by (simp add: chunks_of_sizes)
  show "\<forall>ch \<in> set (chunks_of 10 xs). ch \<noteq> [] \<and> length ch \<le> 10"
    using chunks_of_bounds [of 10 _ xs] by simp
  show "length xs = 25 \<longrightarrow> map length (chunks_of 10 xs) = [10, 10, 5]"
    by (simp add: chunks_of_25)
qed

theorem chunkArray_tens_witness:
  "length batch25 = 25 \<and>
   (\<exists>chunks. chunkArray batch25 10 = Some chunks \<and>
      concat chunks = batch25 \<and> map length chunks = [10, 10, 5] \<and>
      length (chunks ! 0) = 10 \<and> length (chunks ! 1) = 10)"
proof -
  have len: "length batch25 = 25"
    by (simp add: batch25_def)
  from chunkArray_tens [of batch25]
  obtain chunks where ch: "chunkArray batch25 10 = Some chunks \<and> concat chunks = batch25 \<and>
     (\<forall>k. Suc k < length chunks \<longrightarrow> length (chunks ! k) = 10) \<and>
     (\<forall>ch \<in> set chunks. ch \<noteq> [] \<and> length ch \<le> 10) \<and>
     (length batch25 = 25 \<longrightarrow> map length chunks = [10, 10, 5])" ..
  note ret = ch [THEN conjunct1]
    and cat = ch [THEN conjunct2, THEN conjunct1]
    and tens = ch [THEN conjunct2, THEN conjunct2, THEN conjunct1]
    and twentyfive = ch [THEN conjunct2, THEN conjunct2, THEN conjunct2, THEN conjunct2]
  from twentyfive len have sizes: "map length chunks = [10, 10, 5]"
    by (rule mp)
  then have "length (map length chunks) = 3"
    by simp
  then have three: "length chunks = 3"
    by simp
  from tens have "Suc 0 < length chunks \<longrightarrow> length (chunks ! 0) = 10"
    and "Suc 1 < length chunks \<longrightarrow> length (chunks ! 1) = 10"
    by blast+
  with three have first: "length (chunks ! 0) = 10" and second: "length (chunks ! 1) = 10"
    by simp_all
  show ?thesis
    using len ret cat sizes first second by (intro conjI exI [of _ chunks])
qed

section \<open>Batch lookup: properties\<close>

lemma promise_all_Inr: "promise_all (map Inr vs) = Inr vs"
  by (induction vs) simp_all

lemma mset_concat_update:
  "j < length evss \<Longrightarrow> evss ! j = e # es \<Longrightarrow>
   mset (concat (evss[j := es])) + {#e#} = mset (concat evss)"
proof (induction evss arbitrary: j)
  case Nil
  then show ?case by simp
next
  case (Cons x evss)
  then show ?case
    by (cases j) auto
qed

lemma mset_interleave: "mset (interleave sched evss) = mset (concat evss)"
proof (induction sched arbitrary: evss)
  case Nil
  show ?case by simp
next
  case (Cons j sched)
  show ?case
  proof (cases "j < length evss")
    case False
    with Cons show ?thesis by simp
  next
    case True
    show ?thesis
    proof (cases "evss ! j")
      case Nil
      with True Cons show ?thesis by simp
    next
      case head: (Cons e es)
      have "mset (interleave (j # sched) evss) = {#e#} + mset (interleave sched (evss[j := es]))"
        using True head by simp
      also have "\<dots> = {#e#} + mset (concat (evss[j := es]))"
        by (simp add: Cons.IH)
      also have "\<dots> = mset (concat evss)"
        using mset_concat_update [OF True head] by (simp add: add.commute)
      finally show ?thesis .
    qed
  qed
qed

lemma set_interleave: "set (interleave sched evss) = \<Union> (set ` set evss)"
proof -
  have "set (interleave sched evss) = set_mset (mset (interleave sched evss))"
    by simp
  also have "\<dots> = set (concat evss)"
    by (simp only: mset_interleave set_mset_mset)
  finally show ?thesis by simp
qed

lemma fst_checkSingleWarranty: "fst (checkSingleWarranty ev c s) = Inr (lookup_record ev c s)"
  using checkSingleWarranty_Inr [of ev c s] by (auto simp: lookup_record_def)

lemma lookup_events_fun:
  "lookup_events ev c = (\<lambda>s. snd (snd (checkSingleWarranty ev c s)))"
  by (simp add: fun_eq_iff lookup_events_def)

lemma lookup_record_cong:
  "cache_get c (get_ms ev) (cacheKey s) = cache_get c' (get_ms ev) (cacheKey s) \<Longrightarrow>
   lookup_record ev c s = lookup_record ev c' s"
  by (simp add: lookup_record_def checkSingleWarranty_def checkSingleWarranty_try_def
      split: option.splits sum.splits)

lemma lookup_record_hit:
  "cache_get c (get_ms ev) (cacheKey s) = Some r \<Longrightarrow> lookup_record ev c s = r"
  by (simp add: lookup_record_def checkSingleWarranty_hit)

lemma lookup_record_serial:
  assumes "cache_ok c"
  shows "serialNumber (lookup_record ev c s) = s"
proof (cases c ev s rule: checkSingleWarranty_cases)
  case (hit r)
  with assms show ?thesis
    by (simp add: lookup_record_def checkSingleWarranty_hit cache_ok_hit [of c _ s r])
next
  case (api r)
  then show ?thesis
    by (simp add: lookup_record_def checkSingleWarranty_api tryApiMethod_serial)
next
  case (scraped r)
  then show ?thesis
    by (simp add: lookup_record_def checkSingleWarranty_scraped scrapeWarrantyInfo_serial)
next
  case (caught e)
  then show ?thesis
    by (simp add: lookup_record_def checkSingleWarranty_caught)
qed

lemma lookup_events_CacheSet:
  assumes "CacheSet k v \<in> set (lookup_events ev c s)"
  shows "k = cacheKey s \<and> cache_get c (get_ms ev) (cacheKey s) = None \<and>
         lookup_record ev c s = v \<and> serialNumber v = s"
proof (cases c ev s rule: checkSingleWarranty_cases)
  case (hit r)
  with assms show ?thesis
    by (simp add: lookup_events_def checkSingleWarranty_hit)
next
  case (api r)
  with assms show ?thesis
    by (auto simp: lookup_events_def lookup_record_def checkSingleWarranty_api
        tryApiMethod_serial)
next
  case (scraped r)
  with assms show ?thesis
    by (auto simp: lookup_events_def lookup_record_def checkSingleWarranty_scraped
        scrapeWarrantyInfo_serial)
next
  case (caught e)
  with assms show ?thesis
    by (simp add: lookup_events_def checkSingleWarranty_caught)
qed

lemma lookup_events_serial:
  assumes "e \<in> set (lookup_events ev c s)"
  shows "event_serial e = Some s"
proof (cases e)
  case (CacheSet k v)
  with assms lookup_events_CacheSet [of k v ev c s] show ?thesis
    by simp
next
  case (ApiCall t)
  with assms show ?thesis
    by (cases c ev s rule: checkSingleWarranty_cases)
       (auto simp: lookup_events_def checkSingleWarranty_hit checkSingleWarranty_api
         checkSingleWarranty_scraped checkSingleWarranty_caught)
next
  case (ScrapeCall t)
  with assms show ?thesis
    by (cases c ev s rule: checkSingleWarranty_cases)
       (auto simp: lookup_events_def checkSingleWarranty_hit checkSingleWarranty_api
         checkSingleWarranty_scraped checkSingleWarranty_caught)
next
  case (Delay ms)
  with assms show ?thesis
    by (cases c ev s rule: checkSingleWarranty_cases)
       (auto simp: lookup_events_def checkSingleWarranty_hit checkSingleWarranty_api
         checkSingleWarranty_scraped checkSingleWarranty_caught)
qed

text \<open>A single lookup writes the cache as the replay of its effects does.\<close>

lemma checkSingleWarranty_replay:
  "fst (snd (checkSingleWarranty ev c s)) = replay (set_ms ev) c (lookup_events ev c s)"
  by (cases c ev s rule: checkSingleWarranty_cases)
     (simp_all add: lookup_events_def checkSingleWarranty_hit checkSingleWarranty_api
       checkSingleWarranty_scraped checkSingleWarranty_caught)

lemma replay_other:
  "\<forall>v. CacheSet k v \<notin> set evs \<Longrightarrow> replay now c evs k = c k"
proof (induction evs arbitrary: c)
  case Nil
  show ?case by simp
next
  case (Cons e es)
  then show ?case
    by (cases e) (auto simp: cache_set_def)
qed

lemma replay_written:
  "\<exists>v. CacheSet k v \<in> set evs \<Longrightarrow>
   \<exists>v'. CacheSet k v' \<in> set evs \<and>
        replay now c evs k = Some \<lparr>c_value = v', expiresAt = now + CACHE_TTL * 1000\<rparr>"
proof (induction evs arbitrary: c)
  case Nil
  then show ?case by simp
next
  case (Cons e es)
  show ?case
  proof (cases "\<exists>u. CacheSet k u \<in> set es")
    case True
    obtain c1 where c1: "replay now c (e # es) = replay now c1 es"
      by (cases e) auto
    from Cons.IH [OF True, of c1]
    obtain v' where "CacheSet k v' \<in> set es"
      and "replay now c1 es k = Some \<lparr>c_value = v', expiresAt = now + CACHE_TTL * 1000\<rparr>"
      by blast
    with c1 show ?thesis
      by auto
  next
    case False
    with Cons.prems obtain v where e: "e = CacheSet k v"
      by auto
    from False have "replay now (cache_set c now k v) es k = cache_set c now k v k"
      by (simp add: replay_other)
    with e show ?thesis
      by (auto simp: cache_set_def)
  qed
qed

lemma same_lookups_refl: "same_lookups ev c c"
  by (simp add: same_lookups_def)

lemma same_lookups_trans:
  "same_lookups ev c c' \<Longrightarrow> same_lookups ev c' c'' \<Longrightarrow> same_lookups ev c c''"
  by (simp add: same_lookups_def)

lemma replay_same_lookups:
  assumes evs: "\<forall>e \<in> set evs. \<exists>s. e \<in> set (lookup_events ev c s)"
  shows "same_lookups ev c (replay (set_ms ev) c evs)"
  unfolding same_lookups_def
proof
  fix s
  let ?c' = "replay (set_ms ev) c evs"
  show "lookup_record ev ?c' s = lookup_record ev c s"
  proof (cases "\<exists>v. CacheSet (cacheKey s) v \<in> set evs")
    case False
    then have "?c' (cacheKey s) = c (cacheKey s)"
      by (simp add: replay_other)
    then have "cache_get ?c' (get_ms ev) (cacheKey s) = cache_get c (get_ms ev) (cacheKey s)"
      by (simp add: cache_get_def)
    then show ?thesis
      by (rule lookup_record_cong)
  next
    case True
    from replay_written [OF this, of "set_ms ev" c]
    obtain v where v: "CacheSet (cacheKey s) v \<in> set evs"
      and c': "?c' (cacheKey s) = Some \<lparr>c_value = v, expiresAt = set_ms ev + CACHE_TTL * 1000\<rparr>"
      by auto
    from evs v obtain t where "CacheSet (cacheKey s) v \<in> set (lookup_events ev c t)"
      by auto
    from lookup_events_CacheSet [OF this]
    have miss: "cache_get c (get_ms ev) (cacheKey s) = None" and rec: "lookup_record ev c s = v"
      by auto
    show ?thesis
    proof (cases "cache_get ?c' (get_ms ev) (cacheKey s)")
      case None
      with miss show ?thesis
        by (simp add: lookup_record_cong)
    next
      case (Some r)
      with c' have "r = v"
        by (auto simp: cache_get_def split: if_splits)
      with Some rec show ?thesis
        by (simp add: lookup_record_hit)
    qed
  qed
qed

lemma replay_cache_ok:
  "cache_ok c \<Longrightarrow> \<forall>k v. CacheSet k v \<in> set evs \<longrightarrow> k = cacheKey (serialNumber v) \<Longrightarrow>
   cache_ok (replay now c evs)"
proof (induction now c evs rule: replay.induct)
  case (2 now c k v es)
  from 2(3) have "k = cacheKey (serialNumber v)"
    by simp
  with 2(2) have "cache_ok (cache_set c now k v)"
    by (simp add: cache_ok_set)
  with 2 show ?case by simp
qed simp_all

lemma run_chunk_eq:
  "run_chunk ev sched c chunk =
     (Inr (map (lookup_record ev c) chunk),
      replay (set_ms ev) c (chunk_events ev sched c chunk),
      chunk_events ev sched c chunk)"
proof -
  have "map fst (map (checkSingleWarranty ev c) chunk) = map Inr (map (lookup_record ev c) chunk)"
    by (simp add: fst_checkSingleWarranty)
  moreover have "map (\<lambda>run. snd (snd run)) (map (checkSingleWarranty ev c) chunk) =
      map (lookup_events ev c) chunk"
    by (simp add: lookup_events_def)
  ultimately show ?thesis
    unfolding run_chunk_def Let_def chunk_events_def
    by (simp only: promise_all_Inr)
qed

lemma chunk_events_mset:
  "mset (chunk_events ev sched c chunk) = mset (concat (map (lookup_events ev c) chunk))"
  by (simp add: chunk_events_def mset_interleave)

lemma chunk_events_origin:
  "e \<in> set (chunk_events ev sched c chunk) \<Longrightarrow> \<exists>s \<in> set chunk. e \<in> set (lookup_events ev c s)"
  by (auto simp: chunk_events_def set_interleave)

lemma chunk_same_lookups:
  "same_lookups ev c (replay (set_ms ev) c (chunk_events ev sched c chunk))"
  by (rule replay_same_lookups) (blast dest: chunk_events_origin)

lemma chunk_cache_ok:
  assumes "cache_ok c"
  shows "cache_ok (replay (set_ms ev) c (chunk_events ev sched c chunk))"
proof (rule replay_cache_ok [OF assms], intro allI impI)
  fix k v
  assume "CacheSet k v \<in> set (chunk_events ev sched c chunk)"
  then obtain s where "CacheSet k v \<in> set (lookup_events ev c s)"
    by (blast dest: chunk_events_origin)
  from lookup_events_CacheSet [OF this] show "k = cacheKey (serialNumber v)"
    by simp
qed

lemma batch_loop_run:
  assumes "same_lookups ev c0 c"
  shows "\<exists>c' segs.
     batch_loop ev scheds chunks results c tr =
       (Inr (results @ map (lookup_record ev c0) (concat chunks)), c',
        tr @ concat (map (\<lambda>seg. seg @ [Delay 2000]) segs)) \<and>
     same_lookups ev c0 c' \<and> (cache_ok c \<longrightarrow> cache_ok c') \<and>
     length segs = length chunks \<and>
     (\<forall>k<length chunks. \<exists>ck.
        mset (segs ! k) = mset (concat (map (lookup_events ev ck) (chunks ! k))))"
  using assms
proof (induction chunks arbitrary: scheds results c tr)
  case Nil
  then have "batch_loop ev scheds [] results c tr =
       (Inr (results @ map (lookup_record ev c0) (concat [])), c,
        tr @ concat (map (\<lambda>seg. seg @ [Delay 2000]) [])) \<and>
     same_lookups ev c0 c \<and> (cache_ok c \<longrightarrow> cache_ok c) \<and>
     length ([] :: event list list) = length ([] :: string list list)"
    by simp
  then show ?case
    by (intro exI [of _ c] exI [of _ "[]"]) simp
next
  case (Cons chunk rest)
  define sched where "sched = (case scheds of [] \<Rightarrow> [] | x # _ \<Rightarrow> x)"
  define evs where "evs = chunk_events ev sched c chunk"
  define c1 where "c1 = replay (set_ms ev) c evs"
  have same1: "same_lookups ev c0 c1"
    unfolding c1_def evs_def
    by (rule same_lookups_trans [OF Cons.prems chunk_same_lookups])
  have ok1: "cache_ok c \<longrightarrow> cache_ok c1"
    unfolding c1_def evs_def by (simp add: chunk_cache_ok)
  have recs: "map (lookup_record ev c) chunk = map (lookup_record ev c0) chunk"
    using Cons.prems by (simp add: same_lookups_def)
  from Cons.IH [OF same1, of "tl scheds" "results @ map (lookup_record ev c0) chunk"
      "tr @ evs @ [Delay 2000]"]
  obtain c' segs where IH:
    "batch_loop ev (tl scheds) rest (results @ map (lookup_record ev c0) chunk) c1
        (tr @ evs @ [Delay 2000]) =
       (Inr ((results @ map (lookup_record ev c0) chunk) @ map (lookup_record ev c0) (concat rest)),
        c', (tr @ evs @ [Delay 2000]) @ concat (map (\<lambda>seg. seg @ [Delay 2000]) segs))"
    "same_lookups ev c0 c'" "cache_ok c1 \<longrightarrow> cache_ok c'" "length segs = length rest"
    "\<forall>k<length rest. \<exists>ck.
        mset (segs ! k) = mset (concat (map (lookup_events ev ck) (rest ! k)))"
    by blast
  have run: "batch_loop ev scheds (chunk # rest) results c tr =
      batch_loop ev (tl scheds) rest (results @ map (lookup_record ev c0) chunk) c1
        (tr @ evs @ [Delay 2000])"
    by (simp add: run_chunk_eq recs c1_def evs_def sched_def)
  have segs: "\<forall>k<length (chunk # rest). \<exists>ck.
      mset ((evs # segs) ! k) = mset (concat (map (lookup_events ev ck) ((chunk # rest) ! k)))"
  proof (intro allI impI)
    fix k
    assume k: "k < length (chunk # rest)"
    show "\<exists>ck. mset ((evs # segs) ! k) =
        mset (concat (map (lookup_events ev ck) ((chunk # rest) ! k)))"
    proof (cases k)
      case 0
      then show ?thesis
        using chunk_events_mset [of ev sched c chunk] by (auto simp: evs_def)
    next
      case (Suc j)
      with k IH(5) show ?thesis by simp
    qed
  qed
  have "batch_loop ev scheds (chunk # rest) results c tr =
       (Inr (results @ map (lookup_record ev c0) (concat (chunk # rest))), c',
        tr @ concat (map (\<lambda>seg. seg @ [Delay 2000]) (evs # segs))) \<and>
     same_lookups ev c0 c' \<and> (cache_ok c \<longrightarrow> cache_ok c') \<and>
     length (evs # segs) = length (chunk # rest)"
    using run IH(1-4) ok1 by simp
  with segs show ?case
    by blast
qed

lemma checkWarrantyBatch_run:
  "\<exists>c' segs.
     checkWarrantyBatch ev scheds c serials =
       Some (Inr (map (lookup_record ev c) serials), c',
             concat (map (\<lambda>seg. seg @ [Delay 2000]) segs)) \<and>
     (cache_ok c \<longrightarrow> cache_ok c') \<and>
     length segs = length (chunks_of 10 serials) \<and>
     (\<forall>k<length (chunks_of 10 serials). \<exists>ck.
        mset (segs ! k) = mset (concat (map (lookup_events ev ck) (chunks_of 10 serials ! k))))"
proof -
  have ch: "chunkArray serials 10 = Some (chunks_of 10 serials)"
    by (simp add: chunkArray_chunks_of)
  from batch_loop_run [OF same_lookups_refl, where ev = ev and c = c and scheds = scheds
      and chunks = "chunks_of 10 serials" and results = "[]" and tr = "[]"]
  obtain c' segs where
    "batch_loop ev scheds (chunks_of 10 serials) [] c [] =
       (Inr ([] @ map (lookup_record ev c) (concat (chunks_of 10 serials))), c',
        [] @ concat (map (\<lambda>seg. seg @ [Delay 2000]) segs))"
    "cache_ok c \<longrightarrow> cache_ok c'" "length segs = length (chunks_of 10 serials)"
    "\<forall>k<length (chunks_of 10 serials). \<exists>ck.
        mset (segs ! k) = mset (concat (map (lookup_events ev ck) (chunks_of 10 serials ! k)))"
    by blast
  then show ?thesis
    by (intro exI [of _ c'] exI [of _ segs]) (simp add: checkWarrantyBatch_def ch concat_chunks_of)
qed

lemma nth_demo_serials:
  "demo_serials ! 3 = ''PF0BAD01''" "demo_serials ! 4 = ''PF2ABC05''" "length demo_serials = 12"
  by (simp_all add: demo_serials_def)

text \<open>
  C5. For every list of serials, every initial cache and every order in which the
  lookups of a chunk proceed, \<open>checkWarrantyBatch\<close> returns a list as long as the input
  whose i-th record is the one the lookup of the i-th serial resolves to; from a cache
  that satisfies the invariant, the i-th record carries the i-th serial.
\<close>

theorem checkWarrantyBatch_order:
  "\<exists>results c' tr.
     checkWarrantyBatch ev scheds c serials = Some (Inr results, c', tr) \<and>
     length results = length serials \<and>
     (\<forall>i<length serials. Inr (results ! i) = fst (checkSingleWarranty ev c (serials ! i))) \<and>
     (cache_ok c \<longrightarrow> (\<forall>i<length serials. serialNumber (results ! i) = serials ! i))"
proof -
  from checkWarrantyBatch_run [of ev scheds c serials]
  obtain c' segs where run: "checkWarrantyBatch ev scheds c serials =
      Some (Inr (map (lookup_record ev c) serials), c',
            concat (map (\<lambda>seg. seg @ [Delay 2000]) segs))"
    by blast
  have "cache_ok c \<longrightarrow> (\<forall>i<length serials. serialNumber (lookup_record ev c (serials ! i)) = serials ! i)"
  proof (intro impI allI)
    fix i
    assume "cache_ok c"
    then show "serialNumber (lookup_record ev c (serials ! i)) = serials ! i"
      by (rule lookup_record_serial)
  qed
  with run show ?thesis
    by (simp add: fst_checkSingleWarranty)
qed

theorem checkWarrantyBatch_order_witness:
  "cache_ok empty_cache \<and>
   (\<exists>results c' tr.
      checkWarrantyBatch demo_env demo_scheds empty_cache demo_serials = Some (Inr results, c', tr) \<and>
      length results = 12 \<and> map serialNumber results = demo_serials)"
proof -
  from checkWarrantyBatch_order [of demo_env demo_scheds empty_cache demo_serials]
  obtain results c' tr where r:
    "checkWarrantyBatch demo_env demo_scheds empty_cache demo_serials = Some (Inr results, c', tr)"
    "length results = length demo_serials"
    "cache_ok empty_cache \<longrightarrow> (\<forall>i<length demo_serials. serialNumber (results ! i) = demo_serials ! i)"
    by blast
  from r(3) cache_ok_empty have "\<forall>i<length demo_serials. serialNumber (results ! i) = demo_serials ! i"
    by simp
  with r(2) have "map serialNumber results = demo_serials"
    by (simp add: list_eq_iff_nth_eq)
  with r(1,2) cache_ok_empty show ?thesis
    by (simp add: nth_demo_serials)
qed

text \<open>
  C4. If the serial at position k is not cached, the structured client is unavailable
  for it and the scrape client throws e, then the batch still returns a list as long as
  the input; its k-th entry is the Error record of the catch block, with the message of
  e (\<open>Unknown error\<close> when e is not an \<open>Error\<close> instance); every entry is the record its
  own lookup resolves to; and no lookup ever rejects.
\<close>

theorem batch_containment:
  assumes k: "k < length serials"
    and miss: "cache_get c (get_ms ev) (cacheKey (serials ! k)) = None"
    and unavailable: "tryApiMethod ev (serials ! k) = None"
    and throws: "scrapeWarrantyInfo ev (serials ! k) = Inl e"
  shows "\<exists>results c' tr.
     checkWarrantyBatch ev scheds c serials = Some (Inr results, c', tr) \<and>
     length results = length serials \<and>
     results ! k = error_record (serials ! k) e \<and>
     warrantyStatus (results ! k) = Error \<and>
     errorMessage (results ! k) = Some (case e of ErrorObj m \<Rightarrow> m | Thrown \<Rightarrow> ''Unknown error'') \<and>
     (\<forall>i<length serials. Inr (results ! i) = fst (checkSingleWarranty ev c (serials ! i))) \<and>
     (\<forall>ev' c' s. \<exists>r. fst (checkSingleWarranty ev' c' s) = Inr r)"
proof -
  from checkWarrantyBatch_run [of ev scheds c serials]
  obtain c' segs where run: "checkWarrantyBatch ev scheds c serials =
      Some (Inr (map (lookup_record ev c) serials), c',
            concat (map (\<lambda>seg. seg @ [Delay 2000]) segs))"
    by blast
  have "lookup_record ev c (serials ! k) = error_record (serials ! k) e"
    using miss unavailable throws
    by (simp add: lookup_record_def checkSingleWarranty_caught)
  with k have "map (lookup_record ev c) serials ! k = error_record (serials ! k) e"
    by simp
  moreover have "\<forall>ev' c' s. \<exists>r. fst (checkSingleWarranty ev' c' s) = Inr r"
    by (simp add: checkSingleWarranty_Inr)
  ultimately show ?thesis
    using run by (simp add: fst_checkSingleWarranty error_record_def)
qed

theorem batch_containment_witness:
  "(3::nat) < length demo_serials \<and>
   cache_get empty_cache (get_ms demo_env) (cacheKey (demo_serials ! 3)) = None \<and>
   tryApiMethod demo_env (demo_serials ! 3) = None \<and>
   scrapeWarrantyInfo demo_env (demo_serials ! 3) =
     Inl (ErrorObj ''Navigation timeout of 30000 ms exceeded'') \<and>
   (\<exists>results c' tr.
      checkWarrantyBatch demo_env demo_scheds empty_cache demo_serials = Some (Inr results, c', tr) \<and>
      length results = 12 \<and>
      warrantyStatus (results ! 3) = Error \<and>
      errorMessage (results ! 3) = Some ''Navigation timeout of 30000 ms exceeded'' \<and>
      warrantyStatus (results ! 4) = Active)"
proof -
  have k: "(3::nat) < length demo_serials"
    by (simp add: nth_demo_serials)
  have miss: "cache_get empty_cache (get_ms demo_env) (cacheKey (demo_serials ! 3)) = None"
    by simp
  have unavailable: "tryApiMethod demo_env (demo_serials ! 3) = None"
    by simp
  have throws: "scrapeWarrantyInfo demo_env (demo_serials ! 3) =
      Inl (ErrorObj ''Navigation timeout of 30000 ms exceeded'')"
    by (simp add: nth_demo_serials demo_scrape_throws)
  from batch_containment [OF k miss unavailable throws, of demo_scheds]
  obtain results c' tr where r:
    "checkWarrantyBatch demo_env demo_scheds empty_cache demo_serials = Some (Inr results, c', tr)"
    "length results = length demo_serials"
    "warrantyStatus (results ! 3) = Error"
    "errorMessage (results ! 3) =
       Some (case ErrorObj ''Navigation timeout of 30000 ms exceeded'' of
               ErrorObj m \<Rightarrow> m | Thrown \<Rightarrow> ''Unknown error'')"
    "\<forall>i<length demo_serials. Inr (results ! i) = fst (checkSingleWarranty demo_env empty_cache (demo_serials ! i))"
    by blast
  from r(5) have "4 < length demo_serials \<longrightarrow>
      Inr (results ! 4) = fst (checkSingleWarranty demo_env empty_cache (demo_serials ! 4))"
    by blast
  then have "Inr (results ! 4) = fst (checkSingleWarranty demo_env empty_cache ''PF2ABC05'')"
    by (simp add: nth_demo_serials)
  also have "\<dots> = Inr (scrape_record demo_env ''PF2ABC05'' (demo_page ''2024-10-02''))"
    by (simp add: checkSingleWarranty_scraped demo_scrape_loads)
  finally have "warrantyStatus (results ! 4) = Active"
    by (simp add: scrape_record_def demo_page_def demo_env_def demo_days Let_def status_of_days_def)
  with r(1-4) k miss unavailable throws show ?thesis
    by (simp add: nth_demo_serials)
qed

text \<open>
  C8. The effects of \<open>checkWarrantyBatch\<close> are, chunk after chunk, the effects of the
  lookups of that chunk (in some interleaving) followed by \<open>delay(2000)\<close>: every effect
  of a lookup of chunk i comes before the delay that follows the chunk, and every effect
  of a lookup of chunk i + 1 after it.
\<close>

theorem batch_pacing:
  "\<exists>results c' tr chunks segs.
     checkWarrantyBatch ev scheds c serials = Some (Inr results, c', tr) \<and>
     chunkArray serials 10 = Some chunks \<and>
     length segs = length chunks \<and>
     tr = concat (map (\<lambda>seg. seg @ [Delay 2000]) segs) \<and>
     (\<forall>k<length chunks.
        (\<exists>ck. mset (segs ! k) =
              mset (concat (map (\<lambda>s. snd (snd (checkSingleWarranty ev ck s))) (chunks ! k)))) \<and>
        (\<forall>e \<in> set (segs ! k). \<exists>s \<in> set (chunks ! k). event_serial e = Some s))"
proof -
  from checkWarrantyBatch_run [of ev scheds c serials]
  obtain c' segs where run: "checkWarrantyBatch ev scheds c serials =
      Some (Inr (map (lookup_record ev c) serials), c',
            concat (map (\<lambda>seg. seg @ [Delay 2000]) segs))"
    and len: "length segs = length (chunks_of 10 serials)"
    and segs: "\<forall>k<length (chunks_of 10 serials). \<exists>ck.
        mset (segs ! k) = mset (concat (map (lookup_events ev ck) (chunks_of 10 serials ! k)))"
    by blast
  have ch: "chunkArray serials 10 = Some (chunks_of 10 serials)"
    by (simp add: chunkArray_chunks_of)
  have "\<forall>k<length (chunks_of 10 serials).
        (\<exists>ck. mset (segs ! k) =
              mset (concat (map (\<lambda>s. snd (snd (checkSingleWarranty ev ck s))) (chunks_of 10 serials ! k)))) \<and>
        (\<forall>e \<in> set (segs ! k). \<exists>s \<in> set (chunks_of 10 serials ! k). event_serial e = Some s)"
  proof (intro allI impI)
    fix k
    assume "k < length (chunks_of 10 serials)"
    with segs obtain ck where ck:
      "mset (segs ! k) = mset (concat (map (lookup_events ev ck) (chunks_of 10 serials ! k)))"
      by blast
    then have "set (segs ! k) = set (concat (map (lookup_events ev ck) (chunks_of 10 serials ! k)))"
      by (rule mset_eq_setD)
    then have "\<forall>e \<in> set (segs ! k). \<exists>s \<in> set (chunks_of 10 serials ! k). event_serial e = Some s"
      by (auto dest: lookup_events_serial)
    moreover have "mset (segs ! k) =
        mset (concat (map (\<lambda>s. snd (snd (checkSingleWarranty ev ck s))) (chunks_of 10 serials ! k)))"
      using ck by (simp only: lookup_events_fun)
    ultimately show "(\<exists>ck. mset (segs ! k) =
              mset (concat (map (\<lambda>s. snd (snd (checkSingleWarranty ev ck s))) (chunks_of 10 serials ! k)))) \<and>
        (\<forall>e \<in> set (segs ! k). \<exists>s \<in> set (chunks_of 10 serials ! k). event_serial e = Some s)"
      by blast
  qed
  with run len ch show ?thesis
    by blast
qed

theorem batch_pacing_witness:
  "\<exists>results c' tr seg0 seg1.
     checkWarrantyBatch demo_env demo_scheds empty_cache demo_serials = Some (Inr results, c', tr) \<and>
     tr = seg0 @ [Delay 2000] @ seg1 @ [Delay 2000] \<and>
     (\<forall>e \<in> set seg0. \<exists>s \<in> set (take 10 demo_serials). event_serial e = Some s) \<and>
     (\<forall>e \<in> set seg1. \<exists>s \<in> {''PF2ABC11'', ''PF2ABC12''}. event_serial e = Some s)"
proof -
  from batch_pacing [of demo_env demo_scheds empty_cache demo_serials]
  obtain results c' tr chunks segs where r:
    "checkWarrantyBatch demo_env demo_scheds empty_cache demo_serials = Some (Inr results, c', tr)"
    "chunkArray demo_serials 10 = Some chunks"
    "length segs = length chunks"
    "tr = concat (map (\<lambda>seg. seg @ [Delay 2000]) segs)"
    "\<forall>k<length chunks. \<forall>e \<in> set (segs ! k). \<exists>s \<in> set (chunks ! k). event_serial e = Some s"
    by blast
  from r(2) have chunks: "chunks = [take 10 demo_serials, [''PF2ABC11'', ''PF2ABC12'']]"
    by (simp add: chunkArray_chunks_of chunks_of_demo_serials)
  with r(3) have "length segs = 2"
    by simp
  then obtain seg0 seg1 where segs: "segs = [seg0, seg1]"
    by (auto simp: length_Suc_conv numeral_2_eq_2)
  from r(5) have "0 < length chunks \<longrightarrow>
      (\<forall>e \<in> set (segs ! 0). \<exists>s \<in> set (chunks ! 0). event_serial e = Some s)"
    by blast
  with chunks segs have 0:
    "\<forall>e \<in> set seg0. \<exists>s \<in> set (take 10 demo_serials). event_serial e = Some s"
    by simp
  from r(5) have "1 < length chunks \<longrightarrow>
      (\<forall>e \<in> set (segs ! 1). \<exists>s \<in> set (chunks ! 1). event_serial e = Some s)"
    by blast
  with chunks segs have 1:
    "\<forall>e \<in> set seg1. \<exists>s \<in> {''PF2ABC11'', ''PF2ABC12''}. event_serial e = Some s"
    by simp
  from r(4) segs have "tr = seg0 @ [Delay 2000] @ seg1 @ [Delay 2000]"
    by simp
  with r(1) 0 1 show ?thesis
    by blast
qed

end
